theory Spec2Isabelle
  imports Main "HOL-Library.Word" "HOL-Library.Monad_Syntax"
begin

unbundle bit_operations_syntax

section \<open>Ethernet frame headers (layers/ethernet.go)\<close>

text \<open>
  The Go file decodes and serialises the 14-byte Ethernet header. Bytes are \<open>8 word\<close>,
  the 16-bit type/length field is \<open>16 word\<close>, Go's \<open>int\<close> (lengths and slice indices)
  is \<open>int\<close>. A Go function that returns \<open>error\<close> returns \<open>error option\<close> here
  (\<open>None\<close> is \<open>nil\<close>) together with the objects it may have mutated. A run-time panic
  (a slice or index expression out of range) is the outer \<open>None\<close> of an \<open>option\<close>.
\<close>

type_synonym byte = "8 word"
type_synonym uint16 = "16 word"
type_synonym EthernetType = "16 word"

subsection \<open>Slices\<close>

text \<open>
  \<open>s[lo:hi]\<close> read as a value. Go panics unless \<open>0 \<le> lo \<le> hi \<le> cap(s)\<close>; the model
  takes \<open>cap(s) = len(s)\<close>, the smallest capacity a slice can have, so it panics
  whenever the Go expression can.
\<close>

definition slice :: "'a list \<Rightarrow> int \<Rightarrow> int \<Rightarrow> 'a list option" where
  "slice s lo hi =
     (if 0 \<le> lo \<and> lo \<le> hi \<and> hi \<le> int (length s)
      then Some (take (nat (hi - lo)) (drop (nat lo) s))
      else None)"

text \<open>
  A slice that is written through is a view: an offset and a length into the array
  that backs it. \<open>v[lo:hi]\<close> on a view moves the window.
\<close>

record view =
  base :: nat
  len :: nat

definition whole :: "'a list \<Rightarrow> view" where
  "whole s = \<lparr>base = 0, len = length s\<rparr>"

definition reslice :: "view \<Rightarrow> int \<Rightarrow> int \<Rightarrow> view option" where
  "reslice v lo hi =
     (if 0 \<le> lo \<and> lo \<le> hi \<and> hi \<le> int (len v)
      then Some \<lparr>base = base v + nat lo, len = nat (hi - lo)\<rparr>
      else None)"

text \<open>
  The builtin \<open>copy(dst, src)\<close>: it copies \<open>min(len(dst), len(src))\<close> bytes and never
  panics. \<open>mem\<close> is the backing array of \<open>dst\<close>.
\<close>

definition copy :: "byte list \<Rightarrow> view \<Rightarrow> byte list \<Rightarrow> byte list" where
  "copy mem dst src =
     (let n = min (len dst) (length src)
      in take (base dst) mem @ take n src @ drop (base dst + n) mem)"

subsection \<open>encoding/binary, big endian\<close>

text \<open>
  \<open>Uint16(b) = uint16(b[1]) | uint16(b[0])<<8\<close> and
  \<open>PutUint16(b, v): b[0] = byte(v >> 8); b[1] = byte(v)\<close>. Both index \<open>b[1]\<close> first
  and panic on a slice shorter than two bytes.
\<close>

fun Uint16 :: "byte list \<Rightarrow> uint16 option" where
  "Uint16 (b0 # b1 # bs) = Some (ucast b1 OR push_bit 8 (ucast b0))"
| "Uint16 _ = None"

definition PutUint16 :: "byte list \<Rightarrow> view \<Rightarrow> uint16 \<Rightarrow> byte list option" where
  "PutUint16 mem b v =
     (if len b < 2 then None
      else Some (mem[base b := ucast (drop_bit 8 v), base b + 1 := ucast v]))"

subsection \<open>The layer\<close>

datatype error =
    PacketTooSmall
  | InvalidDstMAC "byte list"
  | InvalidSrcMAC "byte list"
  | TypeNotCompatible EthernetType uint16
  | InvalidLength uint16
  | BufferError

text \<open>
  Modelled from the spec: \<open>BaseLayer\<close> is declared elsewhere in package layers. It holds
  the two byte ranges of a layer, the header bytes the layer consumes and the
  payload handed to the next layer, in this order.
\<close>

record BaseLayer =
  Header :: "byte list"
  Payload :: "byte list"

record Ethernet = BaseLayer +
  SrcMAC :: "byte list"
  DstMAC :: "byte list"
  EthernetType :: EthernetType
  Length :: uint16

text \<open>
  \<open>gopacket.DecodeFeedback\<close> is an interface; the decoder calls its one method
  \<open>SetTruncated\<close>. The model takes the implementation as a parameter: a feedback state
  \<open>'f\<close> and the method as a function on it. The constant \<open>EthernetTypeLLC\<close> is declared
  outside this file and is a parameter as well.
\<close>

definition DecodeFromBytes ::
  "EthernetType \<Rightarrow> ('f \<Rightarrow> 'f) \<Rightarrow> Ethernet \<Rightarrow> byte list \<Rightarrow> 'f
     \<Rightarrow> (error option \<times> Ethernet \<times> 'f) option" where
  "DecodeFromBytes EthernetTypeLLC SetTruncated eth data df =
     (if int (length data) < 14 then Some (Some PacketTooSmall, eth, df)
      else do {
        dst \<leftarrow> slice data 0 6;
        src \<leftarrow> slice data 6 12;
        field \<leftarrow> slice data 12 14;
        ty \<leftarrow> Uint16 field;
        hdr \<leftarrow> slice data 0 14;
        rest \<leftarrow> slice data 14 (int (length data));
        let eth = eth\<lparr>DstMAC := dst\<rparr>;
        let eth = eth\<lparr>SrcMAC := src\<rparr>;
        let eth = eth\<lparr>EthernetType := ty\<rparr>;
        let eth = eth\<lparr>Header := hdr, Payload := rest\<rparr>;
        let eth = eth\<lparr>Length := 0\<rparr>;
        if EthernetType eth < 0x0600 then do {
          let eth = eth\<lparr>Length := EthernetType eth\<rparr>;
          let eth = eth\<lparr>EthernetType := EthernetTypeLLC\<rparr>;
          let cmp = int (length (Payload eth)) - uint (Length eth);
          if cmp < 0 then Some (None, eth, SetTruncated df)
          else if cmp > 0 then do {
            p \<leftarrow> slice (Payload eth) 0 (int (length (Payload eth)) - cmp);
            Some (None, eth\<lparr>Payload := p\<rparr>, df)
          }
          else Some (None, eth, df)
        }
        else Some (None, eth, df)
      })"

subsection \<open>Serialising\<close>

text \<open>
  Modelled from the spec: \<open>gopacket.SerializeBuffer\<close> and \<open>gopacket.SerializeOptions\<close>
  are declared outside this file. The buffer is a growable byte container:
  \<open>Bytes\<close> is its current contents front to back, \<open>PrependBytes\<close> grows it at the front
  and \<open>AppendBytes\<close> at the back, each returning a writable view of the new bytes, and
  the bytes written earlier keep their content and order. The spec gives neither call
  a failure, so both return \<open>Inr\<close>; the result type keeps the \<open>error\<close> of the Go
  signature. What the new bytes hold before the caller fills them in is not part of
  the contract: \<open>stale\<close> stands for it.
\<close>

record SerializeBuffer =
  Bytes :: "byte list"
  stale :: "nat \<Rightarrow> byte"

record SerializeOptions =
  FixLengths :: bool
  ComputeChecksums :: bool

definition PrependBytes :: "SerializeBuffer \<Rightarrow> nat \<Rightarrow> error + view \<times> SerializeBuffer" where
  "PrependBytes b num =
     Inr (\<lparr>base = 0, len = num\<rparr>, b\<lparr>Bytes := map (stale b) [0..<num] @ Bytes b\<rparr>)"

definition AppendBytes :: "SerializeBuffer \<Rightarrow> nat \<Rightarrow> error + view \<times> SerializeBuffer" where
  "AppendBytes b num =
     Inr (\<lparr>base = length (Bytes b), len = num\<rparr>,
          b\<lparr>Bytes := Bytes b @ map (stale b) [0..<num]\<rparr>)"

text \<open>
  \<open>SerializeTo\<close>, in three definitions that follow the function top to bottom: the
  branch that writes the type or the length into bytes 12 and 13 of the new header
  (the \<open>if\<close> that starts with the length-mode test), the padding to 60 bytes (from
  \<open>length := len(b.Bytes())\<close> to the end), and the function itself, which calls the
  two. The array \<open>lotsOfZeros\<close> is declared outside this file, like
  \<open>EthernetTypeLLC\<close>, and is a parameter. The local \<open>payload\<close> is only asked for its
  length. A \<open>Some\<close> error in the result of the first part is an early \<open>return\<close>.
\<close>

definition write_type_or_length ::
  "EthernetType \<Rightarrow> Ethernet \<Rightarrow> SerializeBuffer \<Rightarrow> SerializeOptions \<Rightarrow> byte list \<Rightarrow> view
     \<Rightarrow> (error option \<times> Ethernet \<times> SerializeBuffer) option" where
  "write_type_or_length EthernetTypeLLC eth b opts payload bytes =
     (if Length eth \<noteq> 0 \<or> EthernetType eth = EthernetTypeLLC then
        let eth = (if FixLengths opts
                   then eth\<lparr>Length := word_of_nat (length payload)\<rparr> else eth)
        in if EthernetType eth \<noteq> EthernetTypeLLC
           then Some (Some (TypeNotCompatible (EthernetType eth) (Length eth)), eth, b)
           else if Length eth > 0x0600
           then Some (Some (InvalidLength (Length eth)), eth, b)
           else do {
             bytes12 \<leftarrow> reslice bytes 12 (int (len bytes));
             mem \<leftarrow> PutUint16 (Bytes b) bytes12 (Length eth);
             Some (None, eth, b\<lparr>Bytes := mem\<rparr>)
           }
      else do {
        bytes12 \<leftarrow> reslice bytes 12 (int (len bytes));
        mem \<leftarrow> PutUint16 (Bytes b) bytes12 (EthernetType eth);
        Some (None, eth, b\<lparr>Bytes := mem\<rparr>)
      })"

definition pad_to_minimum ::
  "byte list \<Rightarrow> Ethernet \<Rightarrow> SerializeBuffer
     \<Rightarrow> (error option \<times> Ethernet \<times> SerializeBuffer) option" where
  "pad_to_minimum lotsOfZeros eth b =
     (let total = int (length (Bytes b))
      in if total < 60 then
           case AppendBytes b (nat (60 - total)) of
             Inl err \<Rightarrow> Some (Some err, eth, b)
           | Inr (padding, b) \<Rightarrow>
               Some (None, eth, b\<lparr>Bytes := copy (Bytes b) padding lotsOfZeros\<rparr>)
         else Some (None, eth, b))"

definition SerializeTo ::
  "EthernetType \<Rightarrow> byte list \<Rightarrow> Ethernet \<Rightarrow> SerializeBuffer \<Rightarrow> SerializeOptions
     \<Rightarrow> (error option \<times> Ethernet \<times> SerializeBuffer) option" where
  "SerializeTo EthernetTypeLLC lotsOfZeros eth b opts =
     (if int (length (DstMAC eth)) \<noteq> 6 then Some (Some (InvalidDstMAC (DstMAC eth)), eth, b)
      else if int (length (SrcMAC eth)) \<noteq> 6 then Some (Some (InvalidSrcMAC (SrcMAC eth)), eth, b)
      else
        let payload = Bytes b in
        case PrependBytes b 14 of
          Inl err \<Rightarrow> Some (Some err, eth, b)
        | Inr (bytes, b) \<Rightarrow> do {
            let b = b\<lparr>Bytes := copy (Bytes b) bytes (DstMAC eth)\<rparr>;
            bytes6 \<leftarrow> reslice bytes 6 (int (len bytes));
            let b = b\<lparr>Bytes := copy (Bytes b) bytes6 (SrcMAC eth)\<rparr>;
            (ret, eth, b) \<leftarrow> write_type_or_length EthernetTypeLLC eth b opts payload bytes;
            case ret of
              Some err \<Rightarrow> Some (Some err, eth, b)
            | None \<Rightarrow> pad_to_minimum lotsOfZeros eth b
          })"

subsection \<open>The raw header view\<close>

text \<open>
  \<open>EthernetHeader\<close> is a byte slice that its methods read and write in place: the
  model passes the bytes in and returns them updated. \<open>tmp\<close> is the local 6-byte array.
\<close>

definition SwapSrcDst :: "byte list \<Rightarrow> byte list option" where
  "SwapSrcDst hdr = do {
     let tmp = replicate 6 (0 :: byte);
     dst \<leftarrow> slice hdr 0 6;
     let tmp = copy tmp (whole tmp) dst;
     dst_view \<leftarrow> reslice (whole hdr) 0 6;
     src \<leftarrow> slice hdr 6 12;
     let hdr = copy hdr dst_view src;
     src_view \<leftarrow> reslice (whole hdr) 6 12;
     saved \<leftarrow> slice tmp 0 6;
     Some (copy hdr src_view saved)
   }"

definition GetSrcAddress :: "byte list \<Rightarrow> byte list option" where
  "GetSrcAddress hdr = slice hdr 6 12"

definition GetDestAddress :: "byte list \<Rightarrow> byte list option" where
  "GetDestAddress hdr = slice hdr 0 6"

subsection \<open>Closed forms and example frames\<close>

text \<open>The zero value \<open>&Ethernet{}\<close> that \<open>decodeEthernet\<close> decodes into.\<close>

definition Ethernet_zero :: Ethernet where
  "Ethernet_zero =
     \<lparr>Header = [], Payload = [], SrcMAC = [], DstMAC = [], EthernetType = 0, Length = 0\<rparr>"

text \<open>The field as the wire holds it: bytes 12 and 13, most significant first.\<close>

definition wire_field :: "byte list \<Rightarrow> uint16" where
  "wire_field data = ucast (data ! 13) OR push_bit 8 (ucast (data ! 12))"

text \<open>
  What a decode of a buffer of 14 bytes or more leaves in the layer, field by field.
  Every field of the layer is assigned, so nothing of the old layer remains.
\<close>

definition decoded :: "EthernetType \<Rightarrow> byte list \<Rightarrow> Ethernet" where
  "decoded llc data =
     (let f = wire_field data; rest = drop 14 data
      in \<lparr>Header = take 14 data,
          Payload = (if f < 0x0600 then take (unat f) rest else rest),
          SrcMAC = take 6 (drop 6 data),
          DstMAC = take 6 data,
          EthernetType = (if f < 0x0600 then llc else f),
          Length = (if f < 0x0600 then f else 0)\<rparr>)"

text \<open>
  The 14 header bytes of a layer whose field is \<open>v\<close>, and a frame after the padding
  step: \<open>zs\<close> is \<open>lotsOfZeros\<close>, \<open>st\<close> what the appended bytes held before.
\<close>

definition header_bytes :: "Ethernet \<Rightarrow> uint16 \<Rightarrow> byte list" where
  "header_bytes eth v = DstMAC eth @ SrcMAC eth @ [ucast (drop_bit 8 v), ucast v]"

definition padded :: "byte list \<Rightarrow> (nat \<Rightarrow> byte) \<Rightarrow> byte list \<Rightarrow> byte list" where
  "padded zs st bs =
     (if length bs < 60
      then let k = 60 - length bs; n = min k (length zs)
           in bs @ take n zs @ drop n (map st [0..<k])
      else bs)"

text \<open>Two frames: an IPv4 frame with 46 zero bytes, and an 802.3 frame of declared length 5.\<close>

definition frame_ipv4 :: "byte list" where
  "frame_ipv4 = replicate 6 0xAA @ replicate 6 0xBB @ [0x08, 0x00] @ replicate 46 0"

definition frame_llc :: "byte list" where
  "frame_llc = replicate 6 0xAA @ replicate 6 0xBB @ [0x00, 0x05] @ [1, 2, 3, 4, 5, 6, 7, 8, 9, 10]"

text \<open>A captured frame that declares 5 payload bytes and holds 2.\<close>

definition frame_cut :: "byte list" where
  "frame_cut = replicate 6 0xAA @ replicate 6 0xBB @ [0x00, 0x05] @ [1, 2]"

text \<open>
  Inputs for the serialiser: options with \<open>FixLengths\<close> off, a zero array of 1024
  bytes for \<open>lotsOfZeros\<close>, a buffer that holds the given bytes (its fresh bytes
  read \<open>0xEE\<close>), and four layers: one in length mode with \<open>Length = 0x0600\<close>, one
  with a destination of 5 bytes, one with both a length and an IPv4 type, and one
  plain IPv4 header. \<open>frame_1536\<close> is a frame whose field is \<open>0x0600\<close>.
\<close>

definition no_fix :: SerializeOptions where
  "no_fix = \<lparr>FixLengths = False, ComputeChecksums = False\<rparr>"

definition zeros1024 :: "byte list" where
  "zeros1024 = replicate 1024 0"

definition buffer_of :: "byte list \<Rightarrow> SerializeBuffer" where
  "buffer_of bs = \<lparr>Bytes = bs, stale = (\<lambda>i. 0xEE)\<rparr>"

definition eth_1536 :: Ethernet where
  "eth_1536 = \<lparr>Header = [], Payload = [], SrcMAC = replicate 6 0xBB, DstMAC = replicate 6 0xAA,
                EthernetType = 0, Length = 0x0600\<rparr>"

definition eth_bad_dst :: Ethernet where
  "eth_bad_dst = \<lparr>Header = [], Payload = [], SrcMAC = replicate 6 0xBB, DstMAC = replicate 5 0xAA,
                   EthernetType = 0x0800, Length = 0\<rparr>"

definition eth_mixed :: Ethernet where
  "eth_mixed = \<lparr>Header = [], Payload = [], SrcMAC = replicate 6 0xBB, DstMAC = replicate 6 0xAA,
                 EthernetType = 0x0800, Length = 5\<rparr>"


definition frame_1536 :: "byte list" where
  "frame_1536 = replicate 6 0xAA @ replicate 6 0xBB @ [0x06, 0x00] @ replicate 46 0"

section \<open>Decoding\<close>

lemma slice_Some:
  "0 \<le> lo \<Longrightarrow> lo \<le> hi \<Longrightarrow> hi \<le> int (length s) \<Longrightarrow>
   slice s lo hi = Some (take (nat (hi - lo)) (drop (nat lo) s))"
  by (simp add: slice_def)

lemma Uint16_field:
  assumes "14 \<le> length data"
  shows "Uint16 (take 2 (drop 12 data)) = Some (wire_field data)"
proof -
  from assms have "drop 12 data = data ! 12 # data ! 13 # drop 14 data"
    by (simp add: Cons_nth_drop_Suc [symmetric])
  then show ?thesis by (simp add: wire_field_def)
qed

lemma DecodeFromBytes_unfold:
  assumes "14 \<le> length data"
  shows "DecodeFromBytes llc SetTruncated eth data df =
     (let f = wire_field data; rest = drop 14 data;
          eth = \<lparr>Header = take 14 data, Payload = rest, SrcMAC = take 6 (drop 6 data),
                 DstMAC = take 6 data, EthernetType = f, Length = 0\<rparr>
      in if f < 0x0600 then
           let eth = eth\<lparr>Length := f, EthernetType := llc\<rparr>;
               cmp = int (length rest) - uint f
           in if cmp < 0 then Some (None, eth, SetTruncated df)
              else if cmp > 0 then
                do { p \<leftarrow> slice rest 0 (int (length rest) - cmp);
                     Some (None, eth\<lparr>Payload := p\<rparr>, df) }
              else Some (None, eth, df)
         else Some (None, eth, df))"
proof -
  have s: "slice data 0 6 = Some (take 6 data)" "slice data 6 12 = Some (take 6 (drop 6 data))"
    "slice data 12 14 = Some (take 2 (drop 12 data))" "slice data 0 14 = Some (take 14 data)"
    "slice data 14 (int (length data)) = Some (drop 14 data)"
    using assms by (simp_all add: slice_def)
  have n: "\<not> length data < 14" using assms by simp
  show ?thesis
    unfolding DecodeFromBytes_def
    by (cases eth) (simp add: n s Uint16_field [OF assms(1)] Let_def del: of_nat_diff)
qed

lemma take_rest:
  fixes f :: uint16
  assumes "int (length rest) \<le> uint f"
  shows "take (unat f) rest = rest"
proof -
  have "unat f = nat (uint f)" by (rule unat_eq_nat_uint)
  with assms have "length rest \<le> unat f" by linarith
  then show ?thesis by simp
qed

lemma slice_rest:
  fixes f :: uint16
  assumes "uint f < int (length rest)"
  shows "slice rest 0 (uint f) = Some (take (unat f) rest)"
proof -
  have "unat f = nat (uint f)" by (rule unat_eq_nat_uint)
  with assms show ?thesis by (simp add: slice_def)
qed

lemma DecodeFromBytes_long:
  assumes "14 \<le> length data"
  shows "DecodeFromBytes llc SetTruncated eth data df =
         Some (None, decoded llc data,
               if wire_field data < 0x0600 \<and> int (length (drop 14 data)) < uint (wire_field data)
               then SetTruncated df else df)"
proof -
  let ?f = "wire_field data" and ?rest = "drop 14 data"
  note [simp del] = length_drop
  show ?thesis
  proof (cases "?f < 0x0600")
    case False
    then show ?thesis
      by (simp add: DecodeFromBytes_unfold [OF assms] decoded_def Let_def)
  next
    case True
    consider (short) "int (length ?rest) < uint ?f"
      | (long) "uint ?f < int (length ?rest)"
      | (exact) "\<not> int (length ?rest) < uint ?f" "\<not> uint ?f < int (length ?rest)"
      by linarith
    then show ?thesis
    proof cases
      case short
      then have "take (unat ?f) ?rest = ?rest" by (intro take_rest) simp
      with True short show ?thesis
        by (simp add: DecodeFromBytes_unfold [OF assms] decoded_def Let_def)
    next
      case long
      with True slice_rest [OF long] show ?thesis
        by (simp add: DecodeFromBytes_unfold [OF assms] decoded_def Let_def)
    next
      case exact
      then have "take (unat ?f) ?rest = ?rest" by (intro take_rest) simp
      with True exact show ?thesis
        by (simp add: DecodeFromBytes_unfold [OF assms] decoded_def Let_def)
    qed
  qed
qed


lemma DecodeFromBytes_ok:
  assumes "14 \<le> length data"
  shows "DecodeFromBytes llc SetTruncated eth data df =
         Some (None, decoded llc data,
               if wire_field data < 0x0600 \<and> length data - 14 < unat (wire_field data)
               then SetTruncated df else df)"
proof -
  have "unat (wire_field data) = nat (uint (wire_field data))" by (rule unat_eq_nat_uint)
  moreover have "length (drop 14 data) = length data - 14" by simp
  ultimately have "int (length (drop 14 data)) < uint (wire_field data)
      \<longleftrightarrow> length data - 14 < unat (wire_field data)"
    by linarith
  then show ?thesis
    by (simp only: DecodeFromBytes_long [OF assms])
qed

lemma wire_field_ipv4: "wire_field frame_ipv4 = 0x0800"
  by (simp add: wire_field_def frame_ipv4_def nth_append)

lemma wire_field_llc: "wire_field frame_llc = 5"
  by (simp add: wire_field_def frame_llc_def nth_append)

lemma wire_field_cut: "wire_field frame_cut = 5"
  by (simp add: wire_field_def frame_cut_def nth_append)

text \<open>
  C3. A buffer of at most 13 bytes is refused with the too-small error; the call does
  not panic, so no index of the buffer is read out of range, the result does not
  depend on the bytes of the buffer, and the layer and the feedback are returned as
  they were passed.
\<close>

theorem DecodeFromBytes_too_short:
  assumes "length data \<le> 13"
  shows "DecodeFromBytes llc SetTruncated eth data df = Some (Some PacketTooSmall, eth, df)"
  using assms by (simp add: DecodeFromBytes_def)

theorem DecodeFromBytes_too_short_witness:
  "length [1, 2, 3 :: byte] \<le> 13 \<and>
   DecodeFromBytes 0 (\<lambda>t. True) Ethernet_zero [1, 2, 3] False
     = Some (Some PacketTooSmall, Ethernet_zero, False)"
  using DecodeFromBytes_too_short [of "[1, 2, 3]" 0 "\<lambda>t. True" Ethernet_zero False] by simp

text \<open>
  C1. A buffer of 14 bytes or more decodes without error and without panic. The
  destination is bytes 0 to 5, the source bytes 6 to 11, the header the first 14
  bytes. A field of \<open>0x0600\<close> or more is the \<open>EthernetType\<close>, \<open>Length\<close> is 0 and the
  payload is every byte after the header. A smaller field is the \<open>Length\<close>, the
  \<open>EthernetType\<close> is \<open>EthernetTypeLLC\<close>, and the payload is the bytes after the header,
  cut to the declared length where more are there.
\<close>

theorem DecodeFromBytes_fields:
  assumes "14 \<le> length data"
  shows "\<exists>eth' df'.
           DecodeFromBytes llc SetTruncated eth data df = Some (None, eth', df') \<and>
           DstMAC eth' = take 6 data \<and>
           SrcMAC eth' = take 6 (drop 6 data) \<and>
           Header eth' = take 14 data \<and>
           (if wire_field data < 0x0600
            then Length eth' = wire_field data \<and> EthernetType eth' = llc \<and>
                 Payload eth' = take (unat (wire_field data)) (drop 14 data)
            else EthernetType eth' = wire_field data \<and> Length eth' = 0 \<and>
                 Payload eth' = drop 14 data)"
  by (simp add: DecodeFromBytes_long [OF assms] decoded_def Let_def)

theorem DecodeFromBytes_fields_witness:
  "14 \<le> length frame_ipv4 \<and>
   (\<exists>eth' df'.
      DecodeFromBytes 0 (\<lambda>t. True) Ethernet_zero frame_ipv4 False = Some (None, eth', df') \<and>
      DstMAC eth' = replicate 6 0xAA \<and> SrcMAC eth' = replicate 6 0xBB \<and>
      Header eth' = take 14 frame_ipv4 \<and>
      EthernetType eth' = 0x0800 \<and> Length eth' = 0 \<and> Payload eth' = replicate 46 0) \<and>
   14 \<le> length frame_llc \<and>
   (\<exists>eth' df'.
      DecodeFromBytes 0 (\<lambda>t. True) Ethernet_zero frame_llc False = Some (None, eth', df') \<and>
      DstMAC eth' = replicate 6 0xAA \<and> SrcMAC eth' = replicate 6 0xBB \<and>
      Header eth' = take 14 frame_llc \<and>
      Length eth' = 5 \<and> EthernetType eth' = 0 \<and> Payload eth' = [1, 2, 3, 4, 5])"
proof -
  have a: "14 \<le> length frame_ipv4" by (simp add: frame_ipv4_def)
  have b: "14 \<le> length frame_llc" by (simp add: frame_llc_def)
  from DecodeFromBytes_fields [OF a, of 0 "\<lambda>t. True" Ethernet_zero False]
  have "\<exists>eth' df'.
      DecodeFromBytes 0 (\<lambda>t. True) Ethernet_zero frame_ipv4 False = Some (None, eth', df') \<and>
      DstMAC eth' = replicate 6 0xAA \<and> SrcMAC eth' = replicate 6 0xBB \<and>
      Header eth' = take 14 frame_ipv4 \<and>
      EthernetType eth' = 0x0800 \<and> Length eth' = 0 \<and> Payload eth' = replicate 46 0"
    by (simp add: wire_field_ipv4) (simp add: frame_ipv4_def)
  moreover
  from DecodeFromBytes_fields [OF b, of 0 "\<lambda>t. True" Ethernet_zero False]
  have "\<exists>eth' df'.
      DecodeFromBytes 0 (\<lambda>t. True) Ethernet_zero frame_llc False = Some (None, eth', df') \<and>
      DstMAC eth' = replicate 6 0xAA \<and> SrcMAC eth' = replicate 6 0xBB \<and>
      Header eth' = take 14 frame_llc \<and>
      Length eth' = 5 \<and> EthernetType eth' = 0 \<and> Payload eth' = [1, 2, 3, 4, 5]"
    by (simp add: wire_field_llc) (simp add: frame_llc_def)
  ultimately show ?thesis using a b by simp
qed

text \<open>
  C4. When the field is a length below \<open>0x0600\<close> that exceeds the bytes present after
  the header, the decode returns no error and does not panic, the feedback is the one
  passed in with \<open>SetTruncated\<close> called on it, and the payload is every byte after the
  header.
\<close>

theorem DecodeFromBytes_truncated:
  assumes "14 \<le> length data"
    and "wire_field data < 0x0600"
    and "length data - 14 < unat (wire_field data)"
  shows "\<exists>eth'.
           DecodeFromBytes llc SetTruncated eth data df = Some (None, eth', SetTruncated df) \<and>
           Payload eth' = drop 14 data"
  using assms(2,3) by (simp add: DecodeFromBytes_ok [OF assms(1)] decoded_def Let_def)

theorem DecodeFromBytes_truncated_witness:
  "14 \<le> length frame_cut \<and> wire_field frame_cut < 0x0600 \<and>
   length frame_cut - 14 < unat (wire_field frame_cut) \<and>
   (\<exists>eth'.
      DecodeFromBytes 0 (\<lambda>t. True) Ethernet_zero frame_cut False = Some (None, eth', True) \<and>
      Payload eth' = [1, 2])"
proof -
  have a: "14 \<le> length frame_cut" by (simp add: frame_cut_def)
  have b: "wire_field frame_cut < 0x0600" by (simp add: wire_field_cut)
  have c: "length frame_cut - 14 < unat (wire_field frame_cut)"
    by (simp add: wire_field_cut) (simp add: frame_cut_def)
  from DecodeFromBytes_truncated [OF a b c, of 0 "\<lambda>t. True" Ethernet_zero False]
  have "\<exists>eth'.
      DecodeFromBytes 0 (\<lambda>t. True) Ethernet_zero frame_cut False = Some (None, eth', True) \<and>
      Payload eth' = [1, 2]"
    by (simp add: frame_cut_def)
  with a b c show ?thesis by simp
qed

text \<open>
  C5. When the field is a length below \<open>0x0600\<close> that is smaller than the number of
  bytes after the header, the decode returns no error, the payload is exactly the
  first \<open>Length\<close> bytes after the header, and the feedback is returned as it was
  passed: \<open>SetTruncated\<close> is not called.
\<close>

theorem DecodeFromBytes_trimmed:
  assumes "14 \<le> length data"
    and "wire_field data < 0x0600"
    and "unat (wire_field data) < length data - 14"
  shows "\<exists>eth'.
           DecodeFromBytes llc SetTruncated eth data df = Some (None, eth', df) \<and>
           Payload eth' = take (unat (wire_field data)) (drop 14 data) \<and>
           length (Payload eth') = unat (wire_field data)"
  using assms(2,3) by (simp add: DecodeFromBytes_ok [OF assms(1)] decoded_def Let_def)

theorem DecodeFromBytes_trimmed_witness:
  "14 \<le> length frame_llc \<and> wire_field frame_llc < 0x0600 \<and>
   unat (wire_field frame_llc) < length frame_llc - 14 \<and>
   (\<exists>eth'.
      DecodeFromBytes 0 (\<lambda>t. True) Ethernet_zero frame_llc False = Some (None, eth', False) \<and>
      Payload eth' = [1, 2, 3, 4, 5] \<and> length (Payload eth') = 5)"
proof -
  have a: "14 \<le> length frame_llc" by (simp add: frame_llc_def)
  have b: "wire_field frame_llc < 0x0600" by (simp add: wire_field_llc)
  have c: "unat (wire_field frame_llc) < length frame_llc - 14"
    by (simp add: wire_field_llc) (simp add: frame_llc_def)
  from DecodeFromBytes_trimmed [OF a b c, of 0 "\<lambda>t. True" Ethernet_zero False]
  have "\<exists>eth'.
      DecodeFromBytes 0 (\<lambda>t. True) Ethernet_zero frame_llc False = Some (None, eth', False) \<and>
      Payload eth' = [1, 2, 3, 4, 5] \<and> length (Payload eth') = 5"
    by (simp add: wire_field_llc) (simp add: frame_llc_def)
  with a b c show ?thesis by simp
qed

section \<open>The raw header view: swapping the addresses\<close>

lemma SwapSrcDst_Some:
  assumes "12 \<le> length hdr"
  shows "SwapSrcDst hdr = Some (take 6 (drop 6 hdr) @ take 6 hdr @ drop 12 hdr)"
proof -
  have s: "slice hdr 0 6 = Some (take 6 hdr)" "slice hdr 6 12 = Some (take 6 (drop 6 hdr))"
    using assms by (simp_all add: slice_def)
  have r: "reslice (whole hdr) 0 6 = Some \<lparr>base = 0, len = 6\<rparr>"
    using assms by (simp add: reslice_def whole_def)
  have r2: "\<And>h. length h = length hdr \<Longrightarrow> reslice (whole h) 6 12 = Some \<lparr>base = 6, len = 6\<rparr>"
    using assms by (simp add: reslice_def whole_def)
  have t: "copy (replicate 6 0) (whole (replicate 6 (0::byte))) (take 6 hdr) = take 6 hdr"
    using assms by (simp add: copy_def whole_def)
  have c1: "copy hdr \<lparr>base = 0, len = 6\<rparr> (take 6 (drop 6 hdr)) = take 6 (drop 6 hdr) @ drop 6 hdr"
    using assms by (simp add: copy_def)
  have l: "length (take 6 (drop 6 hdr) @ drop 6 hdr) = length hdr"
    using assms by simp
  have s3: "slice (take 6 hdr) 0 6 = Some (take 6 hdr)"
    using assms by (simp add: slice_def)
  have c2: "copy (take 6 (drop 6 hdr) @ drop 6 hdr) \<lparr>base = 6, len = 6\<rparr> (take 6 hdr)
            = take 6 (drop 6 hdr) @ take 6 hdr @ drop 12 hdr"
    using assms by (simp add: copy_def)
  show ?thesis
    by (simp add: SwapSrcDst_def s r t c1 r2 [OF l] s3 c2 del: append_take_drop_id)
qed


text \<open>
  C10. On a header view of 12 bytes or more \<open>SwapSrcDst\<close> does not panic, a second
  application gives the original bytes back, and after one application the source
  address is the old destination, the destination the old source, and the bytes from
  index 12 on (and the length) are as before.
\<close>

theorem SwapSrcDst_twice:
  assumes "12 \<le> length hdr"
  shows "\<exists>hdr'.
           SwapSrcDst hdr = Some hdr' \<and>
           SwapSrcDst hdr' = Some hdr \<and>
           GetDestAddress hdr = Some (take 6 hdr) \<and>
           GetSrcAddress hdr = Some (take 6 (drop 6 hdr)) \<and>
           GetSrcAddress hdr' = GetDestAddress hdr \<and>
           GetDestAddress hdr' = GetSrcAddress hdr \<and>
           length hdr' = length hdr \<and>
           drop 12 hdr' = drop 12 hdr"
proof -
  let ?h = "take 6 (drop 6 hdr) @ take 6 hdr @ drop 12 hdr"
  have len: "length ?h = length hdr" using assms by simp
  then have len': "12 \<le> length ?h" using assms by simp
  have parts: "take 6 ?h = take 6 (drop 6 hdr)" "take 6 (drop 6 ?h) = take 6 hdr"
    "drop 12 ?h = drop 12 hdr"
    using assms by simp_all
  have "take 6 hdr @ take 6 (drop 6 hdr) @ drop 12 hdr = hdr"
  proof -
    have "take 6 (drop 6 hdr) @ drop 12 hdr = drop 6 hdr"
      using append_take_drop_id [of 6 "drop 6 hdr"] by simp
    then show ?thesis by simp
  qed
  then have again: "SwapSrcDst ?h = Some hdr"
    by (simp only: SwapSrcDst_Some [OF len'] parts)
  have g: "GetDestAddress hdr = Some (take 6 hdr)" "GetSrcAddress hdr = Some (take 6 (drop 6 hdr))"
    "GetDestAddress ?h = Some (take 6 ?h)" "GetSrcAddress ?h = Some (take 6 (drop 6 ?h))"
    using assms by (simp_all add: GetDestAddress_def GetSrcAddress_def slice_def)
  have g': "GetSrcAddress ?h = GetDestAddress hdr" "GetDestAddress ?h = GetSrcAddress hdr"
    by (simp_all only: g parts)
  show ?thesis
    by (intro exI [of _ ?h] conjI)
      (rule SwapSrcDst_Some [OF assms] again g(1) g(2) g' len parts(3))+
qed

theorem SwapSrcDst_twice_witness:
  "12 \<le> length [1, 2, 3, 4, 5, 6, 7, 8, 9, 10, 11, 12, 8, 0 :: byte] \<and>
   SwapSrcDst [1, 2, 3, 4, 5, 6, 7, 8, 9, 10, 11, 12, 8, 0]
     = Some [7, 8, 9, 10, 11, 12, 1, 2, 3, 4, 5, 6, 8, 0] \<and>
   SwapSrcDst [7, 8, 9, 10, 11, 12, 1, 2, 3, 4, 5, 6, 8, 0]
     = Some [1, 2, 3, 4, 5, 6, 7, 8, 9, 10, 11, 12, 8, 0] \<and>
   GetSrcAddress [7, 8, 9, 10, 11, 12, 1, 2, 3, 4, 5, 6, 8, 0] = Some [1, 2, 3, 4, 5, 6] \<and>
   GetDestAddress [7, 8, 9, 10, 11, 12, 1, 2, 3, 4, 5, 6, 8, 0] = Some [7, 8, 9, 10, 11, 12]"
proof -
  let ?h = "[1, 2, 3, 4, 5, 6, 7, 8, 9, 10, 11, 12, 8, 0 :: byte]"
  have a: "12 \<le> length ?h" by simp
  from SwapSrcDst_twice [OF a] obtain h' where
    h: "SwapSrcDst ?h = Some h'" "SwapSrcDst h' = Some ?h"
       "GetSrcAddress h' = GetDestAddress ?h" "GetDestAddress h' = GetSrcAddress ?h"
       "GetDestAddress ?h = Some (take 6 ?h)" "GetSrcAddress ?h = Some (take 6 (drop 6 ?h))"
       "length h' = length ?h" "drop 12 h' = drop 12 ?h"
    by blast
  have e: "h' = [7, 8, 9, 10, 11, 12, 1, 2, 3, 4, 5, 6, 8, 0]"
    using h(1) by (simp add: SwapSrcDst_Some)
  show ?thesis using h unfolding e by simp
qed

section \<open>Serialising\<close>

lemma write_addresses:
  assumes "length D = 6" and "length S = 6" and "length J = 14"
  shows "copy (copy (J @ P) \<lparr>base = 0, len = 14\<rparr> D) \<lparr>base = 6, len = 8\<rparr> S
         = D @ S @ drop 12 J @ P"
  using assms by (simp add: copy_def)

lemma write_field:
  assumes "length D = 6" and "length S = 6" and "length J = 2"
  shows "(D @ S @ J @ P)[12 := h, 13 := l] = D @ S @ [h, l] @ P"
proof -
  from assms(3) obtain x y where J: "J = [x, y]"
    by (cases J; cases "tl J") auto
  show ?thesis using assms(1,2) by (simp add: J list_update_append)
qed

lemma write_padding:
  "copy (X @ M) \<lparr>base = length X, len = k\<rparr> zs
   = X @ take (min k (length zs)) zs @ drop (min k (length zs)) M"
  by (simp add: copy_def Let_def)


lemma pad_to_minimum_eq:
  "pad_to_minimum zs eth b = Some (None, eth, b\<lparr>Bytes := padded zs (stale b) (Bytes b)\<rparr>)"
proof (cases "length (Bytes b) < 60")
  case True
  then have k: "nat (60 - int (length (Bytes b))) = 60 - length (Bytes b)" by linarith
  from True show ?thesis
    by (simp add: pad_to_minimum_def AppendBytes_def k write_padding padded_def Let_def)
next
  case False
  then show ?thesis by (simp add: pad_to_minimum_def padded_def)
qed

lemma write_type_or_length_eq:
  assumes D: "length (DstMAC eth) = 6" and S: "length (SrcMAC eth) = 6"
    and B: "Bytes b = DstMAC eth @ SrcMAC eth @ [j0, j1] @ P"
  shows "write_type_or_length llc eth b opts payload \<lparr>base = 0, len = 14\<rparr> =
     (let length_mode = (Length eth \<noteq> 0 \<or> EthernetType eth = llc);
          eth' = (if length_mode \<and> FixLengths opts
                  then eth\<lparr>Length := word_of_nat (length payload)\<rparr> else eth)
      in if length_mode \<and> EthernetType eth \<noteq> llc
         then Some (Some (TypeNotCompatible (EthernetType eth) (Length eth')), eth', b)
         else if length_mode \<and> Length eth' > 0x0600
         then Some (Some (InvalidLength (Length eth')), eth', b)
         else Some (None, eth',
                b\<lparr>Bytes := header_bytes eth (if length_mode then Length eth' else EthernetType eth)
                   @ P\<rparr>))"
proof -
  have r: "reslice \<lparr>base = 0, len = 14\<rparr> 12 14 = Some \<lparr>base = 12, len = 2\<rparr>"
    by (simp add: reslice_def)
  have p: "\<And>v. PutUint16 (Bytes b) \<lparr>base = 12, len = 2\<rparr> v = Some (header_bytes eth v @ P)"
    using write_field [OF D S, of "[j0, j1]" P]
    by (simp add: PutUint16_def header_bytes_def B)
  show ?thesis
    by (simp add: write_type_or_length_def r p Let_def)
qed


lemma SerializeTo_valid:
  assumes D: "length (DstMAC eth) = 6" and S: "length (SrcMAC eth) = 6"
  shows "SerializeTo llc zs eth b opts =
     (let length_mode = (Length eth \<noteq> 0 \<or> EthernetType eth = llc);
          eth' = (if length_mode \<and> FixLengths opts
                  then eth\<lparr>Length := word_of_nat (length (Bytes b))\<rparr> else eth);
          partial = b\<lparr>Bytes := DstMAC eth @ SrcMAC eth @ [stale b 12, stale b 13] @ Bytes b\<rparr>
      in if length_mode \<and> EthernetType eth \<noteq> llc
         then Some (Some (TypeNotCompatible (EthernetType eth) (Length eth')), eth', partial)
         else if length_mode \<and> Length eth' > 0x0600
         then Some (Some (InvalidLength (Length eth')), eth', partial)
         else Some (None, eth',
                b\<lparr>Bytes := padded zs (stale b)
                  (header_bytes eth (if length_mode then Length eth' else EthernetType eth)
                   @ Bytes b)\<rparr>))"
proof -
  let ?partial = "b\<lparr>Bytes := DstMAC eth @ SrcMAC eth @ [stale b 12, stale b 13] @ Bytes b\<rparr>"
  have r: "reslice \<lparr>base = 0, len = 14\<rparr> 6 14 = Some \<lparr>base = 6, len = 8\<rparr>"
    by (simp add: reslice_def)
  have J: "drop 12 (map (stale b) [0..<14]) = [stale b 12, stale b 13]"
    by (simp add: upt_rec [of 12] upt_rec [of 13] drop_map)
  have w: "copy (copy (map (stale b) [0..<14] @ Bytes b) \<lparr>base = 0, len = 14\<rparr> (DstMAC eth))
             \<lparr>base = 6, len = 8\<rparr> (SrcMAC eth)
           = Bytes ?partial"
    using write_addresses [OF D S, of "map (stale b) [0..<14]" "Bytes b"] by (simp add: J)
  have B: "Bytes ?partial = DstMAC eth @ SrcMAC eth @ [stale b 12, stale b 13] @ Bytes b"
    by simp
  have start: "SerializeTo llc zs eth b opts =
      write_type_or_length llc eth ?partial opts (Bytes b) \<lparr>base = 0, len = 14\<rparr>
      \<bind> (\<lambda>(ret, eth, b). case ret of Some err \<Rightarrow> Some (Some err, eth, b)
                                | None \<Rightarrow> pad_to_minimum zs eth b)"
    unfolding SerializeTo_def
    by (simp add: D S PrependBytes_def r w [simplified] Let_def)
  show ?thesis
    unfolding start write_type_or_length_eq [OF D S B]
    by (simp add: pad_to_minimum_eq Let_def)
qed


lemma hi_lo:
  fixes b0 b1 :: byte
  shows "ucast (drop_bit 8 (ucast b1 OR push_bit 8 (ucast b0) :: uint16)) = b0"
    and "ucast (ucast b1 OR push_bit 8 (ucast b0) :: uint16) = b1"
  by (auto simp: bit_eq_iff bit_simps dest: bit_imp_le_length)

lemma take_14:
  assumes "14 \<le> length data"
  shows "take 6 data @ take 6 (drop 6 data) @ [data ! 12, data ! 13] = take 14 data"
proof -
  have "take 14 data = take 12 data @ take 2 (drop 12 data)"
    using take_add [of 12 2 data] by simp
  moreover have "take 12 data = take 6 data @ take 6 (drop 6 data)"
    using take_add [of 6 6 data] by simp
  moreover from assms have "drop 12 data = data ! 12 # data ! 13 # drop 14 data"
    by (simp add: Cons_nth_drop_Suc [symmetric])
  ultimately show ?thesis by simp
qed

lemma wire_field_bytes:
  "ucast (drop_bit 8 (wire_field data)) = data ! 12" "ucast (wire_field data) = data ! 13"
  unfolding wire_field_def by (rule hi_lo)+

lemma header_bytes_decoded:
  assumes "14 \<le> length data"
  shows "header_bytes (decoded llc data) (wire_field data) = take 14 data"
  using take_14 [OF assms]
  by (simp add: header_bytes_def decoded_def Let_def wire_field_bytes)


lemma take_14_padded:
  assumes "length H = 14"
  shows "take 14 (padded zs st (H @ P)) = H"
  using assms by (simp add: padded_def Let_def)

text \<open>
  C2. Decoding a buffer of 14 bytes or more and serialising the layer it yields, with
  \<open>FixLengths\<close> off, into any buffer returns no error and does not panic, and the
  first 14 bytes of the buffer are then the first 14 bytes that were decoded. The
  sentinel \<open>EthernetTypeLLC\<close> is taken below \<open>0x0600\<close>, outside the range of the
  type values.
\<close>

theorem decode_serialize_roundtrip:
  assumes "14 \<le> length data" and "llc < 0x0600" and "\<not> FixLengths opts"
  shows "\<exists>eth df' eth' b'.
           DecodeFromBytes llc SetTruncated old data df = Some (None, eth, df') \<and>
           SerializeTo llc zs eth b opts = Some (None, eth', b') \<and>
           take 14 (Bytes b') = take 14 data"
proof -
  let ?eth = "decoded llc data" and ?f = "wire_field data"
  have D: "length (DstMAC ?eth) = 6" and S: "length (SrcMAC ?eth) = 6"
    using assms(1) by (simp_all add: decoded_def Let_def)
  have H: "length (take 14 data) = 14" using assms(1) by simp
  have "SerializeTo llc zs ?eth b opts =
          Some (None, ?eth, b\<lparr>Bytes := padded zs (stale b) (take 14 data @ Bytes b)\<rparr>)"
  proof (cases "?f < 0x0600")
    case True
    then have "Length ?eth = ?f" "EthernetType ?eth = llc" "\<not> ?f > 0x0600"
      by (simp_all add: decoded_def Let_def)
    then show ?thesis
      using assms(3)
      by (simp add: SerializeTo_valid [OF D S] header_bytes_decoded [OF assms(1)] Let_def)
  next
    case False
    with assms(2) have "?f \<noteq> llc" by auto
    with False have "Length ?eth = 0" "EthernetType ?eth = ?f" "?f \<noteq> llc"
      by (simp_all add: decoded_def Let_def)
    then show ?thesis
      by (simp add: SerializeTo_valid [OF D S] header_bytes_decoded [OF assms(1)] Let_def)
  qed
  then show ?thesis
    by (simp add: DecodeFromBytes_ok [OF assms(1)] take_14_padded [OF H])
qed


theorem decode_serialize_roundtrip_witness:
  "14 \<le> length frame_ipv4 \<and> (0 :: EthernetType) < 0x0600 \<and> \<not> FixLengths no_fix \<and>
   (\<exists>eth df' eth' b'.
      DecodeFromBytes 0 (\<lambda>t. True) Ethernet_zero frame_ipv4 False = Some (None, eth, df') \<and>
      SerializeTo 0 zeros1024 eth (buffer_of []) no_fix = Some (None, eth', b') \<and>
      take 14 (Bytes b') = take 14 frame_ipv4)"
proof -
  have a: "14 \<le> length frame_ipv4" by (simp add: frame_ipv4_def)
  have b: "(0 :: EthernetType) < 0x0600" by simp
  have c: "\<not> FixLengths no_fix" by (simp add: no_fix_def)
  from decode_serialize_roundtrip [OF a b c, where SetTruncated = "\<lambda>t. True"
      and old = Ethernet_zero and df = False and zs = zeros1024 and b = "buffer_of []"] a b c
  show ?thesis by blast
qed

text \<open>
  C9. A layer whose destination or source address is not 6 bytes long is refused
  with the error for that address, and the buffer and the layer come back as they were
  passed: the check comes before the first call on the buffer.
\<close>

theorem SerializeTo_bad_MAC:
  assumes "length (DstMAC eth) \<noteq> 6 \<or> length (SrcMAC eth) \<noteq> 6"
  shows "SerializeTo llc zs eth b opts =
           Some (Some (if length (DstMAC eth) \<noteq> 6 then InvalidDstMAC (DstMAC eth)
                       else InvalidSrcMAC (SrcMAC eth)), eth, b)"
  using assms by (auto simp: SerializeTo_def)

theorem SerializeTo_bad_MAC_witness:
  "length (DstMAC eth_bad_dst) \<noteq> 6 \<and>
   SerializeTo 0 zeros1024 eth_bad_dst (buffer_of [1, 2, 3]) no_fix
     = Some (Some (InvalidDstMAC (replicate 5 0xAA)), eth_bad_dst, buffer_of [1, 2, 3])"
proof -
  have a: "length (DstMAC eth_bad_dst) \<noteq> 6 \<or> length (SrcMAC eth_bad_dst) \<noteq> 6"
    by (simp add: eth_bad_dst_def)
  from SerializeTo_bad_MAC [OF a, of 0 zeros1024 "buffer_of [1, 2, 3]" no_fix]
  show ?thesis using a by (simp add: eth_bad_dst_def)
qed

text \<open>
  C7. A layer with a nonzero \<open>Length\<close> and an \<open>EthernetType\<close> other than
  \<open>EthernetTypeLLC\<close> is never serialised: the call returns an error, whatever the
  addresses, the buffer and the options are.
\<close>

theorem SerializeTo_length_without_LLC:
  assumes "Length eth \<noteq> 0" and "EthernetType eth \<noteq> llc"
  shows "\<exists>e eth' b'. SerializeTo llc zs eth b opts = Some (Some e, eth', b')"
proof (cases "length (DstMAC eth) = 6 \<and> length (SrcMAC eth) = 6")
  case True
  then have D: "length (DstMAC eth) = 6" and S: "length (SrcMAC eth) = 6" by simp_all
  from assms show ?thesis by (simp add: SerializeTo_valid [OF D S] Let_def)
next
  case False
  then show ?thesis by (auto simp: SerializeTo_def)
qed

theorem SerializeTo_length_without_LLC_witness:
  "Length eth_mixed \<noteq> 0 \<and> EthernetType eth_mixed \<noteq> 0 \<and>
   (\<exists>e eth' b'. SerializeTo 0 zeros1024 eth_mixed (buffer_of []) no_fix = Some (Some e, eth', b'))"
proof -
  have a: "Length eth_mixed \<noteq> 0" and b: "EthernetType eth_mixed \<noteq> 0"
    by (simp_all add: eth_mixed_def)
  from SerializeTo_length_without_LLC [OF a b] a b show ?thesis by blast
qed





text \<open>
  C6. In length mode with the sentinel type and \<open>Length = 0x0600\<close>, a value outside
  the range below \<open>0x0600\<close>, \<open>SerializeTo\<close> returns no error and writes \<open>06 00\<close> into
  bytes 12 and 13; \<open>DecodeFromBytes\<close> reads that frame back as \<open>EthernetType = 0x0600\<close>
  with \<open>Length = 0\<close>.
\<close>

theorem SerializeTo_accepts_length_0x0600:
  "EthernetType eth_1536 = 0 \<and> Length eth_1536 = 0x0600 \<and> \<not> Length eth_1536 < 0x0600 \<and>
   SerializeTo 0 zeros1024 eth_1536 (buffer_of (replicate 46 0)) no_fix
     = Some (None, eth_1536, buffer_of frame_1536) \<and>
   take 2 (drop 12 frame_1536) = [0x06, 0x00] \<and>
   DecodeFromBytes 0 (\<lambda>t. True) Ethernet_zero frame_1536 False
     = Some (None, decoded 0 frame_1536, False) \<and>
   EthernetType (decoded 0 frame_1536) = 0x0600 \<and> Length (decoded 0 frame_1536) = 0"
proof -
  have D: "length (DstMAC eth_1536) = 6" and S: "length (SrcMAC eth_1536) = 6"
    by (simp_all add: eth_1536_def)
  have ser: "SerializeTo 0 zeros1024 eth_1536 (buffer_of (replicate 46 0)) no_fix
     = Some (None, eth_1536, buffer_of frame_1536)"
    unfolding SerializeTo_valid [OF D S]
    by (simp add: eth_1536_def buffer_of_def no_fix_def header_bytes_def padded_def
        frame_1536_def)
  have l: "14 \<le> length frame_1536" by (simp add: frame_1536_def)
  have f: "wire_field frame_1536 = 0x0600"
    by (simp add: wire_field_def frame_1536_def nth_append)
  have dec: "DecodeFromBytes 0 (\<lambda>t. True) Ethernet_zero frame_1536 False
     = Some (None, decoded 0 frame_1536, False)"
    by (simp add: DecodeFromBytes_ok [OF l] f)
  have fields: "EthernetType (decoded 0 frame_1536) = 0x0600" "Length (decoded 0 frame_1536) = 0"
    by (simp_all add: decoded_def f)
  have t: "take 2 (drop 12 frame_1536) = [0x06, 0x00]" by (simp add: frame_1536_def)
  show ?thesis using ser dec fields t by (simp add: eth_1536_def)
qed

end
